theory Spec2Isabelle
  imports Main "HOL-Library.Word" "HOL-Library.Signed_Division"
begin

unbundle bit_operations_syntax

section \<open>Data model\<close>

text \<open>
  The repository holds two programs for the same board: \<^verbatim>\<open>src/main.cpp\<close> (a stopwatch on a
  4-digit 7-segment display behind a 74HC595 shift register) and \<^verbatim>\<open>src/Task2/main.cpp\<close>
  (the same stopwatch plus a voltage read-out with a decimal point). Definitions taken from
  the second file carry the prefix \<open>Task2_\<close>; where both files contain the same text
  (the two tables, \<open>shiftOutMSBFirst\<close>, \<open>writeToShiftRegister\<close>) one definition stands
  for both.

  \<^item> \<open>uint8_t\<close> is \<open>8 word\<close>.
  \<^item> \<open>int\<close> is modelled by \<open>int\<close>; \<open>/\<close> and \<open>%\<close> are the truncating \<open>sdiv\<close> and
    \<open>smod\<close> of C++, not the flooring \<open>div\<close> and \<open>mod\<close> of HOL. No operation of
    \<open>displayNumber\<close> can overflow, and the counters of the stopwatch stay within
    \<open>0..59\<close> and \<open>0..99\<close> (proved below), far from the limits of a machine \<open>int\<close>.
  \<^item> Writing a pin, and sleeping, are the observable effects: a function that drives the
    pins returns the list of events it causes, in order.
  \<^item> Reading an array outside its bounds is undefined behaviour in C++; the model returns
    the error \<open>OutOfBounds\<close> there.
\<close>

type_synonym u8 = "8 word"

datatype pin_event =
    LatchPin bool   \<comment> \<open>\<open>latchPin = b\<close>\<close>
  | ClockPin bool   \<comment> \<open>\<open>clockPin = b\<close>\<close>
  | DataPin bool    \<comment> \<open>\<open>dataPin = b\<close>\<close>
  | SleepFor nat    \<comment> \<open>\<open>ThisThread::sleep_for\<close>, in milliseconds\<close>

datatype error = OutOfBounds

definition array_at :: "'a list \<Rightarrow> int \<Rightarrow> error + 'a" where
  "array_at xs i =
     (if 0 \<le> i \<and> i < int (length xs) then Inr (xs ! nat i) else Inl OutOfBounds)"

definition static_cast_u8 :: "int \<Rightarrow> u8" where
  "static_cast_u8 k = word_of_int k"

section \<open>The tables\<close>

definition digitPattern :: "u8 list" where
  "digitPattern =
     [static_cast_u8 (NOT 0x3F),
      static_cast_u8 (NOT 0x06),
      static_cast_u8 (NOT 0x5B),
      static_cast_u8 (NOT 0x4F),
      static_cast_u8 (NOT 0x66),
      static_cast_u8 (NOT 0x6D),
      static_cast_u8 (NOT 0x7D),
      static_cast_u8 (NOT 0x07),
      static_cast_u8 (NOT 0x7F),
      static_cast_u8 (NOT 0x6F)]"

definition digitPos :: "u8 list" where
  "digitPos = [0x01, 0x02, 0x04, 0x08]"

section \<open>The stopwatch\<close>

record stopwatch =
  seconds :: int
  minutes :: int

text \<open>\<open>updateTime\<close> of \<^verbatim>\<open>src/main.cpp\<close>.\<close>

definition updateTime :: "stopwatch \<Rightarrow> stopwatch" where
  "updateTime s =
     (let s1 = s\<lparr>seconds := seconds s + 1\<rparr> in
      if seconds s1 \<ge> 60 then
        (let s2 = s1\<lparr>seconds := 0\<rparr>;
             s3 = s2\<lparr>minutes := minutes s2 + 1\<rparr> in
         if minutes s3 \<ge> 100 then s3\<lparr>minutes := 0\<rparr> else s3)
      else s1)"

text \<open>\<open>updateTime\<close> of \<^verbatim>\<open>src/Task2/main.cpp\<close>.\<close>

definition Task2_updateTime :: "stopwatch \<Rightarrow> stopwatch" where
  "Task2_updateTime s =
     (let s1 = s\<lparr>seconds := seconds s + 1\<rparr> in
      if seconds s1 \<ge> 60 then
        (let s2 = s1\<lparr>seconds := 0\<rparr> in
         s2\<lparr>minutes := (minutes s2 + 1) smod 100\<rparr>)
      else s1)"

text \<open>
  The reset of the main loop (\<open>seconds = minutes = 0\<close>), the number the main loop hands
  to \<open>displayNumber\<close> (\<open>minutes * 100 + seconds\<close>), and the stopwatch under any
  sequence of timer ticks and resets, for either tick function.
\<close>

definition reset :: "stopwatch \<Rightarrow> stopwatch" where
  "reset s = (let s1 = s\<lparr>minutes := 0\<rparr> in s1\<lparr>seconds := 0\<rparr>)"

definition timeDisplay :: "stopwatch \<Rightarrow> int" where
  "timeDisplay s = minutes s * 100 + seconds s"

definition initial :: stopwatch where
  "initial = \<lparr>seconds = 0, minutes = 0\<rparr>"

datatype action = Tick | Reset

fun run :: "(stopwatch \<Rightarrow> stopwatch) \<Rightarrow> action list \<Rightarrow> stopwatch \<Rightarrow> stopwatch" where
  "run tick [] s = s"
| "run tick (Tick # as) s = run tick as (tick s)"
| "run tick (Reset # as) s = run tick as (reset s)"

section \<open>The shift register protocol\<close>

text \<open>
  The loop of \<open>shiftOutMSBFirst\<close>, started at \<open>i\<close>: the byte is promoted to \<open>int\<close>
  before the \<open>&\<close> with \<open>1 << i\<close>.
\<close>

function shiftOut_loop :: "u8 \<Rightarrow> int \<Rightarrow> pin_event list" where
  "shiftOut_loop val i =
     (if i \<ge> 0 then
        [DataPin (uint val AND push_bit (nat i) 1 \<noteq> 0), ClockPin True, ClockPin False]
          @ shiftOut_loop val (i - 1)
      else [])"
  by pat_completeness auto
termination
  by (relation "measure (\<lambda>(val, i). nat (i + 1))") auto

declare shiftOut_loop.simps [simp del]

definition shiftOutMSBFirst :: "u8 \<Rightarrow> pin_event list" where
  "shiftOutMSBFirst val = shiftOut_loop val 7"

definition writeToShiftRegister :: "u8 \<Rightarrow> u8 \<Rightarrow> pin_event list" where
  "writeToShiftRegister segments digit =
     [LatchPin False] @ shiftOutMSBFirst segments @ shiftOutMSBFirst digit @ [LatchPin True]"

section \<open>The display\<close>

text \<open>The loop of \<open>displayNumber\<close> in \<^verbatim>\<open>src/main.cpp\<close>, started at \<open>i\<close>.\<close>

function displayNumber_loop :: "int list \<Rightarrow> int \<Rightarrow> error + pin_event list" where
  "displayNumber_loop digits i =
     (if i < 4 then
        (case array_at digits i of Inl e \<Rightarrow> Inl e | Inr d \<Rightarrow>
        (case array_at digitPattern d of Inl e \<Rightarrow> Inl e | Inr pattern \<Rightarrow>
        (case array_at digitPos i of Inl e \<Rightarrow> Inl e | Inr pos \<Rightarrow>
        (case displayNumber_loop digits (i + 1) of Inl e \<Rightarrow> Inl e | Inr rest \<Rightarrow>
           Inr (writeToShiftRegister pattern pos @ [SleepFor 2] @ rest)))))
      else Inr [])"
  by pat_completeness auto
termination
  by (relation "measure (\<lambda>(digits, i). nat (4 - i))") auto

declare displayNumber_loop.simps [simp del]

definition displayNumber :: "int \<Rightarrow> error + pin_event list" where
  "displayNumber number =
     (let digits = [(number sdiv 1000) smod 10,
                    (number sdiv 100) smod 10,
                    (number sdiv 10) smod 10,
                    number smod 10]
      in displayNumber_loop digits 0)"

text \<open>
  The same for \<^verbatim>\<open>src/Task2/main.cpp\<close>: the pattern is promoted to \<open>int\<close> for
  \<open>pattern &= ~0x80\<close> and converted back.
\<close>

function Task2_displayNumber_loop ::
  "int list \<Rightarrow> bool \<Rightarrow> int \<Rightarrow> int \<Rightarrow> error + pin_event list" where
  "Task2_displayNumber_loop digits showDecimal decimalPos i =
     (if i < 4 then
        (case array_at digits i of Inl e \<Rightarrow> Inl e | Inr d \<Rightarrow>
        (case array_at digitPattern d of Inl e \<Rightarrow> Inl e | Inr pattern0 \<Rightarrow>
        (let pattern = (if showDecimal \<and> i = decimalPos
                        then static_cast_u8 (uint pattern0 AND NOT 0x80)
                        else pattern0) in
        (case array_at digitPos i of Inl e \<Rightarrow> Inl e | Inr pos \<Rightarrow>
        (case Task2_displayNumber_loop digits showDecimal decimalPos (i + 1) of
           Inl e \<Rightarrow> Inl e
         | Inr rest \<Rightarrow> Inr (writeToShiftRegister pattern pos @ [SleepFor 2] @ rest))))))
      else Inr [])"
  by pat_completeness auto
termination
  by (relation "measure (\<lambda>(digits, showDecimal, decimalPos, i). nat (4 - i))") auto

declare Task2_displayNumber_loop.simps [simp del]

definition Task2_displayNumber :: "int \<Rightarrow> bool \<Rightarrow> int \<Rightarrow> error + pin_event list" where
  "Task2_displayNumber number showDecimal decimalPos =
     (let digits = [(number sdiv 1000) smod 10,
                    (number sdiv 100) smod 10,
                    (number sdiv 10) smod 10,
                    number smod 10]
      in Task2_displayNumber_loop digits showDecimal decimalPos 0)"

section \<open>Vocabulary of the specification\<close>

text \<open>
  What the receiving 74HC595 sees. \<open>serialization b\<close> is the pin activity the specification
  asks of \<open>SerialOut.send\<close>: for each bit position 7 down to 0, the data line is set to
  that bit, the clock is raised, then lowered.
\<close>

definition serialization :: "u8 \<Rightarrow> pin_event list" where
  "serialization b =
     concat (map (\<lambda>i. [DataPin (bit b i), ClockPin True, ClockPin False])
                 [7, 6, 5, 4, 3, 2, 1, 0])"

text \<open>
  The register samples the data line on every rising edge of the clock:
  \<open>clocked_bits dat clk es\<close> are the sampled levels, in order, when the data line is at
  \<open>dat\<close> and the clock at \<open>clk\<close> before \<open>es\<close>. Each sample enters the register at
  position 0 and moves the older ones up.
\<close>

fun clocked_bits :: "bool \<Rightarrow> bool \<Rightarrow> pin_event list \<Rightarrow> bool list" where
  "clocked_bits dat clk [] = []"
| "clocked_bits dat clk (DataPin b # es) = clocked_bits b clk es"
| "clocked_bits dat clk (ClockPin b # es) =
     (if b \<and> \<not> clk then dat # clocked_bits dat b es else clocked_bits dat b es)"
| "clocked_bits dat clk (LatchPin b # es) = clocked_bits dat clk es"
| "clocked_bits dat clk (SleepFor t # es) = clocked_bits dat clk es"

definition shift_in :: "u8 \<Rightarrow> bool \<Rightarrow> u8" where
  "shift_in reg b = push_bit 1 reg OR of_bool b"

definition reassemble :: "u8 \<Rightarrow> bool list \<Rightarrow> u8" where
  "reassemble reg bs = foldl shift_in reg bs"

definition clock_pulses :: "pin_event list \<Rightarrow> nat" where
  "clock_pulses es = length (clocked_bits False False es)"

fun latch_writes :: "pin_event list \<Rightarrow> bool list" where
  "latch_writes [] = []"
| "latch_writes (LatchPin b # es) = b # latch_writes es"
| "latch_writes (ClockPin b # es) = latch_writes es"
| "latch_writes (DataPin b # es) = latch_writes es"
| "latch_writes (SleepFor t # es) = latch_writes es"

text \<open>
  The pin activity of a sequence of calls \<open>writeToShiftRegister segments digit\<close>, each
  followed by the dwell of 2 ms.
\<close>

definition write_calls :: "(u8 \<times> u8) list \<Rightarrow> pin_event list" where
  "write_calls ws =
     concat (map (\<lambda>(segments, digit). writeToShiftRegister segments digit @ [SleepFor 2]) ws)"

text \<open>
  \<open>SegmentEncoder.encode\<close> is no function of the source: it is the first three lines of the
  loop body of \<open>displayNumber\<close> in \<^verbatim>\<open>src/Task2/main.cpp\<close> (the table lookup and the
  optional \<open>pattern &= ~0x80\<close>), taken alone. With \<open>decimalOn = False\<close> it is the lookup
  \<open>digitPattern[digits[i]]\<close> of \<^verbatim>\<open>src/main.cpp\<close>.
\<close>

definition encode :: "int \<Rightarrow> bool \<Rightarrow> error + u8" where
  "encode digit decimalOn =
     (case array_at digitPattern digit of Inl e \<Rightarrow> Inl e | Inr pattern0 \<Rightarrow>
        Inr (if decimalOn then static_cast_u8 (uint pattern0 AND NOT 0x80) else pattern0))"

text \<open>The standard common-cathode patterns, the constants under the \<open>~\<close> of the table.\<close>

definition cathodePattern :: "u8 list" where
  "cathodePattern = [0x3F, 0x06, 0x5B, 0x4F, 0x66, 0x6D, 0x7D, 0x07, 0x7F, 0x6F]"

definition in_range :: "stopwatch \<Rightarrow> bool" where
  "in_range s = (0 \<le> seconds s \<and> seconds s \<le> 59 \<and> 0 \<le> minutes s \<and> minutes s \<le> 99)"

section \<open>Serial output\<close>

lemma data_bit: "(uint w AND 2 ^ n \<noteq> 0) = bit w n"
  by (auto simp add: and_exp_eq_0_iff_not_bit bit_uint_iff dest: bit_imp_le_length)

lemma shiftOut_loop_unroll:
  "shiftOut_loop b (int n - 1) =
     concat (map (\<lambda>i. [DataPin (bit b i), ClockPin True, ClockPin False]) (rev [0..<n]))"
proof (induction n)
  case 0
  show ?case by (subst shiftOut_loop.simps) simp
next
  case (Suc n)
  have "shiftOut_loop b (int (Suc n) - 1) =
          [DataPin (bit b n), ClockPin True, ClockPin False] @ shiftOut_loop b (int n - 1)"
    by (subst shiftOut_loop.simps) (simp add: data_bit)
  then show ?case by (simp add: Suc.IH)
qed

lemma down_from_7: "[7, 6, 5, 4, 3, 2, 1, 0] = rev [0..<8]"
  by (simp add: upt_rec)

lemma shiftOutMSBFirst_events: "shiftOutMSBFirst b = serialization b"
proof -
  have "shiftOut_loop b 7 =
          concat (map (\<lambda>i. [DataPin (bit b i), ClockPin True, ClockPin False]) (rev [0..<8]))"
    using shiftOut_loop_unroll [of b 8] by simp
  then show ?thesis
    by (simp only: shiftOutMSBFirst_def serialization_def down_from_7)
qed

lemma reassemble_bits:
  "reassemble reg (map (bit b) (rev [0..<n])) = push_bit n reg OR take_bit n b"
proof (induction n arbitrary: reg)
  case 0
  show ?case by (simp add: reassemble_def)
next
  case (Suc n)
  have "reassemble reg (map (bit b) (rev [0..<Suc n]))
      = reassemble (shift_in reg (bit b n)) (map (bit b) (rev [0..<n]))"
    by (simp add: reassemble_def)
  also have "\<dots> = push_bit n (shift_in reg (bit b n)) OR take_bit n b"
    by (rule Suc.IH)
  also have "\<dots> = push_bit (Suc n) reg OR take_bit (Suc n) b"
    unfolding shift_in_def
    by (rule bit_eqI) (auto simp add: bit_simps less_Suc_eq dest: bit_imp_le_length)
  finally show ?case .
qed

lemma clocked_serialization:
  "clocked_bits dat False (serialization b) = map (bit b) [7, 6, 5, 4, 3, 2, 1, 0]"
  by (simp add: serialization_def)

text \<open>
  Claim C3. For every byte \<open>b\<close>, \<open>shiftOutMSBFirst b\<close> is exactly the 8 groups (data line
  set to the bit, clock raised, clock lowered) for the bit positions 7 down to 0 and nothing
  else; the register samples exactly the 8 bits of \<open>b\<close>, most significant first, whatever the
  data line showed before; and shifting these samples in, most significant first, leaves \<open>b\<close>
  in the register whatever it held before. The clock is low before the call, as it is after
  start-up and after every call.
\<close>

theorem shiftOutMSBFirst_roundtrip:
  "shiftOutMSBFirst b = serialization b
   \<and> clocked_bits dat False (shiftOutMSBFirst b) = map (bit b) [7, 6, 5, 4, 3, 2, 1, 0]
   \<and> reassemble reg (clocked_bits dat False (shiftOutMSBFirst b)) = b"
proof -
  have "reassemble reg (map (bit b) [7, 6, 5, 4, 3, 2, 1, 0]) = push_bit 8 reg OR take_bit 8 b"
    unfolding down_from_7 by (rule reassemble_bits)
  also have "\<dots> = b"
    by (rule bit_eqI) (auto simp add: bit_simps dest: bit_imp_le_length)
  finally show ?thesis
    by (simp add: shiftOutMSBFirst_events clocked_serialization)
qed

text \<open>
  Claim C2. For every segment byte \<open>s\<close> and digit-select byte \<open>d\<close>,
  \<open>writeToShiftRegister s d\<close> is: the latch lowered, the serialization of \<open>s\<close>, the
  serialization of \<open>d\<close>, the latch raised, in this order and with nothing else (50 pin
  writes). The latch is written exactly twice, low then high, and the clock pulses 8 times
  for each byte, 16 times in all, between the two.
\<close>

theorem writeToShiftRegister_frame:
  "writeToShiftRegister s d =
     [LatchPin False] @ serialization s @ serialization d @ [LatchPin True]
   \<and> latch_writes (writeToShiftRegister s d) = [False, True]
   \<and> clock_pulses (serialization s) = 8
   \<and> clock_pulses (serialization d) = 8
   \<and> clock_pulses (serialization s @ serialization d) = 16
   \<and> clock_pulses (writeToShiftRegister s d) = 16
   \<and> length (writeToShiftRegister s d) = 50"
  by (simp add: writeToShiftRegister_def shiftOutMSBFirst_events serialization_def
      clock_pulses_def)

section \<open>The stopwatch\<close>

lemma nonneg_smod: "0 \<le> k \<Longrightarrow> 0 < l \<Longrightarrow> k smod l = k mod (l::int)"
  by (simp add: signed_modulo_int_def sgn_if)

lemma nonneg_sdiv: "0 \<le> k \<Longrightarrow> 0 < l \<Longrightarrow> k sdiv l = k div (l::int)"
  by (simp add: signed_divide_int_def sgn_if)

lemma updateTime_rule:
  "updateTime s =
     (if seconds s + 1 \<ge> 60
      then s\<lparr>seconds := 0, minutes := (if minutes s + 1 \<ge> 100 then 0 else minutes s + 1)\<rparr>
      else s\<lparr>seconds := seconds s + 1\<rparr>)"
  by (simp add: updateTime_def Let_def)

lemma Task2_updateTime_rule:
  "Task2_updateTime s =
     (if seconds s + 1 \<ge> 60
      then s\<lparr>seconds := 0, minutes := (minutes s + 1) smod 100\<rparr>
      else s\<lparr>seconds := seconds s + 1\<rparr>)"
  by (simp add: Task2_updateTime_def Let_def)

lemma wrap_100:
  "0 \<le> m \<Longrightarrow> m \<le> 99 \<Longrightarrow> (m + 1) smod 100 = (if m + 1 \<ge> 100 then 0 else m + (1::int))"
  by (simp add: nonneg_smod)

lemma variants_agree:
  "0 \<le> minutes s \<Longrightarrow> minutes s \<le> 99 \<Longrightarrow> Task2_updateTime s = updateTime s"
  by (simp only: updateTime_rule Task2_updateTime_rule wrap_100)

text \<open>
  Claim C9. From every state with seconds in 0..59 and minutes in 0..99 the tick function
  of \<^verbatim>\<open>src/Task2/main.cpp\<close> (minutes incremented modulo 100) and that of
  \<^verbatim>\<open>src/main.cpp\<close> (minutes incremented, then reset at 100) give the same state; it is
  the state of one rule: below 59 seconds the seconds advance; at 59 the seconds return to 0
  and the minutes advance, returning to 0 after 99.
\<close>

theorem updateTime_variants_agree:
  assumes "0 \<le> seconds s" and "seconds s \<le> 59" and "0 \<le> minutes s" and "minutes s \<le> 99"
  shows "Task2_updateTime s = updateTime s
       \<and> updateTime s =
           (if seconds s = 59
            then \<lparr>seconds = 0, minutes = (if minutes s = 99 then 0 else minutes s + 1)\<rparr>
            else \<lparr>seconds = seconds s + 1, minutes = minutes s\<rparr>)"
proof
  show "Task2_updateTime s = updateTime s"
    using assms by (simp add: variants_agree)
  show "updateTime s =
           (if seconds s = 59
            then \<lparr>seconds = 0, minutes = (if minutes s = 99 then 0 else minutes s + 1)\<rparr>
            else \<lparr>seconds = seconds s + 1, minutes = minutes s\<rparr>)"
    using assms by (cases s) (auto simp add: updateTime_rule)
qed

theorem updateTime_variants_agree_witness:
  "0 \<le> seconds \<lparr>seconds = 59, minutes = 99\<rparr> \<and> seconds \<lparr>seconds = 59, minutes = 99\<rparr> \<le> 59
   \<and> 0 \<le> minutes \<lparr>seconds = 59, minutes = 99\<rparr> \<and> minutes \<lparr>seconds = 59, minutes = 99\<rparr> \<le> 99
   \<and> Task2_updateTime \<lparr>seconds = 59, minutes = 99\<rparr> = updateTime \<lparr>seconds = 59, minutes = 99\<rparr>
   \<and> updateTime \<lparr>seconds = 59, minutes = 99\<rparr> = \<lparr>seconds = 0, minutes = 0\<rparr>
   \<and> Task2_updateTime \<lparr>seconds = 59, minutes = 98\<rparr> = \<lparr>seconds = 0, minutes = 99\<rparr>
   \<and> Task2_updateTime \<lparr>seconds = 58, minutes = 98\<rparr> = \<lparr>seconds = 59, minutes = 98\<rparr>"
  using updateTime_variants_agree [of "\<lparr>seconds = 59, minutes = 99\<rparr>"]
        updateTime_variants_agree [of "\<lparr>seconds = 59, minutes = 98\<rparr>"]
        updateTime_variants_agree [of "\<lparr>seconds = 58, minutes = 98\<rparr>"]
  by simp

lemma in_range_updateTime: "in_range s \<Longrightarrow> in_range (updateTime s)"
  by (cases s) (simp add: in_range_def updateTime_rule)

lemma in_range_Task2_updateTime:
  assumes "in_range s"
  shows "in_range (Task2_updateTime s)"
proof -
  have "Task2_updateTime s = updateTime s"
    using assms by (simp add: variants_agree in_range_def)
  with assms show ?thesis
    by (simp only: in_range_updateTime)
qed

lemma in_range_reset: "in_range (reset s)"
  by (simp add: in_range_def reset_def)

lemma in_range_run:
  assumes tick: "\<And>s. in_range s \<Longrightarrow> in_range (tick s)"
  shows "in_range s \<Longrightarrow> in_range (run tick acts s)"
proof (induction acts arbitrary: s)
  case Nil
  then show ?case by simp
next
  case (Cons a acts)
  show ?case
  proof (cases a)
    case Tick
    with Cons show ?thesis by (simp add: tick)
  next
    case Reset
    with Cons show ?thesis by (simp add: in_range_reset)
  qed
qed

lemma in_range_timeDisplay: "in_range s \<Longrightarrow> 0 \<le> timeDisplay s \<and> timeDisplay s \<le> 9959"
  by (simp add: in_range_def timeDisplay_def)

lemma in_range_initial: "in_range initial"
  by (simp add: in_range_def initial_def)

text \<open>
  Claim C10. Started at 0 seconds and 0 minutes, after any sequence of ticks and resets,
  with either tick function, the seconds are in 0..59 and the minutes in 0..99; so the
  number \<open>minutes * 100 + seconds\<close> handed to the display is in 0..9959.
\<close>

theorem stopwatch_invariant:
  "in_range (run updateTime acts initial)
   \<and> in_range (run Task2_updateTime acts initial)
   \<and> 0 \<le> timeDisplay (run updateTime acts initial)
   \<and> timeDisplay (run updateTime acts initial) \<le> 9959
   \<and> 0 \<le> timeDisplay (run Task2_updateTime acts initial)
   \<and> timeDisplay (run Task2_updateTime acts initial) \<le> 9959"
proof -
  have a: "in_range (run updateTime acts initial)"
    by (rule in_range_run [OF in_range_updateTime in_range_initial])
  have b: "in_range (run Task2_updateTime acts initial)"
    by (rule in_range_run [OF in_range_Task2_updateTime in_range_initial])
  show ?thesis
    using a b in_range_timeDisplay [OF a] in_range_timeDisplay [OF b] by simp
qed

lemma ticks_from_initial:
  "n < 6000 \<Longrightarrow>
     (updateTime ^^ n) initial = \<lparr>seconds = int (n mod 60), minutes = int (n div 60)\<rparr>"
proof (induction n)
  case 0
  show ?case by (simp add: initial_def)
next
  case (Suc n)
  then have IH:
    "(updateTime ^^ n) initial = \<lparr>seconds = int (n mod 60), minutes = int (n div 60)\<rparr>"
    by simp
  have step: "(updateTime ^^ Suc n) initial = updateTime ((updateTime ^^ n) initial)"
    by simp
  have decomp: "n = 60 * (n div 60) + n mod 60"
    by simp
  show ?case
  proof (cases "n mod 60 = 59")
    case True
    with decomp Suc.prems have "n div 60 < 99"
      by linarith
    moreover from True have "Suc n mod 60 = 0" "Suc n div 60 = Suc (n div 60)"
      by (simp_all add: mod_Suc div_Suc)
    ultimately show ?thesis
      unfolding step IH by (simp add: updateTime_rule True)
  next
    case False
    moreover have "n mod 60 < 60"
      by simp
    ultimately have "n mod 60 < 59"
      by linarith
    moreover from False have "Suc n mod 60 = Suc (n mod 60)" "Suc n div 60 = n div 60"
      by (simp_all add: mod_Suc div_Suc)
    ultimately show ?thesis
      unfolding step IH by (simp add: updateTime_rule)
  qed
qed

lemma Task2_ticks_eq:
  assumes "in_range s"
  shows "(Task2_updateTime ^^ n) s = (updateTime ^^ n) s \<and> in_range ((updateTime ^^ n) s)"
proof (induction n)
  case 0
  from assms show ?case by simp
next
  case (Suc n)
  let ?t = "(updateTime ^^ n) s"
  from Suc have eq: "(Task2_updateTime ^^ n) s = ?t" and r: "in_range ?t"
    by simp_all
  have "(Task2_updateTime ^^ Suc n) s = Task2_updateTime ?t"
    by (simp add: eq)
  also have "\<dots> = updateTime ?t"
    using r by (simp add: variants_agree in_range_def)
  finally have "(Task2_updateTime ^^ Suc n) s = (updateTime ^^ Suc n) s"
    by simp
  moreover have "in_range ((updateTime ^^ Suc n) s)"
    using in_range_updateTime [OF r] by simp
  ultimately show ?case by simp
qed

text \<open>
  Claim C5. From 0 minutes and 0 seconds, 60 ticks give 1 minute and 0 seconds, 5999 ticks
  give 99 minutes and 59 seconds, and the 6000th tick gives 0 minutes and 0 seconds again,
  for the tick function of either file.
\<close>

theorem stopwatch_ticks:
  "(updateTime ^^ 60) initial = \<lparr>seconds = 0, minutes = 1\<rparr>
   \<and> (updateTime ^^ 5999) initial = \<lparr>seconds = 59, minutes = 99\<rparr>
   \<and> (updateTime ^^ 6000) initial = \<lparr>seconds = 0, minutes = 0\<rparr>
   \<and> (Task2_updateTime ^^ 60) initial = \<lparr>seconds = 0, minutes = 1\<rparr>
   \<and> (Task2_updateTime ^^ 5999) initial = \<lparr>seconds = 59, minutes = 99\<rparr>
   \<and> (Task2_updateTime ^^ 6000) initial = \<lparr>seconds = 0, minutes = 0\<rparr>"
proof -
  have "(updateTime ^^ 60) initial = \<lparr>seconds = int (60 mod 60), minutes = int (60 div 60)\<rparr>"
    by (rule ticks_from_initial) simp
  then have a: "(updateTime ^^ 60) initial = \<lparr>seconds = 0, minutes = 1\<rparr>"
    by simp
  have "(updateTime ^^ 5999) initial =
          \<lparr>seconds = int (5999 mod 60), minutes = int (5999 div 60)\<rparr>"
    by (rule ticks_from_initial) simp
  then have b: "(updateTime ^^ 5999) initial = \<lparr>seconds = 59, minutes = 99\<rparr>"
    by simp
  have "(6000::nat) = Suc 5999"
    by simp
  then have "(updateTime ^^ 6000) initial = updateTime ((updateTime ^^ 5999) initial)"
    by (simp only: funpow.simps o_apply)
  then have c: "(updateTime ^^ 6000) initial = \<lparr>seconds = 0, minutes = 0\<rparr>"
    by (simp only: b) (simp add: updateTime_rule)
  note t = Task2_ticks_eq [OF in_range_initial, THEN conjunct1]
  show ?thesis
    by (simp only: t a b c simp_thms)
qed

section \<open>The display\<close>

lemma digitPattern_values:
  "digitPattern = [0xC0, 0xF9, 0xA4, 0xB0, 0x99, 0x92, 0x82, 0xF8, 0x80, 0x90]"
  by (simp add: digitPattern_def static_cast_u8_def)

lemma length_digitPattern: "length digitPattern = 10"
  by (simp add: digitPattern_def)

lemma clear_bit7: "static_cast_u8 (uint p AND NOT 0x80) = p AND NOT 0x80"
  unfolding static_cast_u8_def
  by (rule bit_eqI) (auto simp add: bit_simps)

lemma error_unique: "(e::error) = OutOfBounds"
  by (cases e) simp

lemma encode_bounds: "(encode d decimalOn = Inl OutOfBounds) = (d < 0 \<or> 9 < d)"
  by (auto simp add: encode_def array_at_def length_digitPattern)

lemma encode_cases:
  obtains (out) "d < 0 \<or> 9 < d" and "encode d decimalOn = Inl OutOfBounds"
  | (ok) p where "0 \<le> d" and "d \<le> 9" and "encode d decimalOn = Inr p"
  by (cases "encode d decimalOn")
    (use encode_bounds [of d decimalOn] in \<open>auto simp add: error_unique\<close>)

text \<open>The loops, unrolled: four lookups, then four calls of \<open>writeToShiftRegister\<close>.\<close>

lemma displayNumber_loop_encode:
  "displayNumber_loop [d0, d1, d2, d3] 0 =
     (case encode d0 False of Inl e \<Rightarrow> Inl e | Inr p0 \<Rightarrow>
     (case encode d1 False of Inl e \<Rightarrow> Inl e | Inr p1 \<Rightarrow>
     (case encode d2 False of Inl e \<Rightarrow> Inl e | Inr p2 \<Rightarrow>
     (case encode d3 False of Inl e \<Rightarrow> Inl e | Inr p3 \<Rightarrow>
        Inr (write_calls [(p0, 0x01), (p1, 0x02), (p2, 0x04), (p3, 0x08)])))))"
  by (simp add: displayNumber_loop.simps encode_def array_at_def digitPos_def
        write_calls_def split: sum.splits)

lemma Task2_displayNumber_loop_encode:
  "Task2_displayNumber_loop [d0, d1, d2, d3] showDecimal decimalPos 0 =
     (case encode d0 (showDecimal \<and> 0 = decimalPos) of Inl e \<Rightarrow> Inl e | Inr p0 \<Rightarrow>
     (case encode d1 (showDecimal \<and> 1 = decimalPos) of Inl e \<Rightarrow> Inl e | Inr p1 \<Rightarrow>
     (case encode d2 (showDecimal \<and> 2 = decimalPos) of Inl e \<Rightarrow> Inl e | Inr p2 \<Rightarrow>
     (case encode d3 (showDecimal \<and> 3 = decimalPos) of Inl e \<Rightarrow> Inl e | Inr p3 \<Rightarrow>
        Inr (write_calls [(p0, 0x01), (p1, 0x02), (p2, 0x04), (p3, 0x08)])))))"
  by (simp add: Task2_displayNumber_loop.simps encode_def array_at_def digitPos_def
        write_calls_def Let_def split: sum.splits)

lemma Task2_default_args:
  "Task2_displayNumber number False decimalPos = displayNumber number"
  by (simp add: Task2_displayNumber_def displayNumber_def Task2_displayNumber_loop_encode
        displayNumber_loop_encode cong: sum.case_cong)

lemma displayNumber_loop_digits:
  assumes "0 \<le> d0" "d0 \<le> 9" "0 \<le> d1" "d1 \<le> 9" "0 \<le> d2" "d2 \<le> 9" "0 \<le> d3" "d3 \<le> 9"
  shows "displayNumber_loop [d0, d1, d2, d3] 0 =
           Inr (write_calls [(digitPattern ! nat d0, 0x01), (digitPattern ! nat d1, 0x02),
                             (digitPattern ! nat d2, 0x04), (digitPattern ! nat d3, 0x08)])"
  using assms
  by (simp add: displayNumber_loop.simps array_at_def length_digitPattern digitPos_def
        write_calls_def)

lemma displayNumber_loop_bounds:
  "(displayNumber_loop [d0, d1, d2, d3] 0 = Inl OutOfBounds) =
     (d0 < 0 \<or> 9 < d0 \<or> d1 < 0 \<or> 9 < d1 \<or> d2 < 0 \<or> 9 < d2 \<or> d3 < 0 \<or> 9 < d3)"
  unfolding displayNumber_loop_encode
  by (cases d0 False rule: encode_cases; cases d1 False rule: encode_cases;
      cases d2 False rule: encode_cases; cases d3 False rule: encode_cases) simp_all

lemma Task2_displayNumber_loop_bounds:
  "(Task2_displayNumber_loop [d0, d1, d2, d3] showDecimal decimalPos 0 = Inl OutOfBounds) =
     (d0 < 0 \<or> 9 < d0 \<or> d1 < 0 \<or> 9 < d1 \<or> d2 < 0 \<or> 9 < d2 \<or> d3 < 0 \<or> 9 < d3)"
  unfolding Task2_displayNumber_loop_encode
  by (cases d0 "showDecimal \<and> 0 = decimalPos" rule: encode_cases;
      cases d1 "showDecimal \<and> 1 = decimalPos" rule: encode_cases;
      cases d2 "showDecimal \<and> 2 = decimalPos" rule: encode_cases;
      cases d3 "showDecimal \<and> 3 = decimalPos" rule: encode_cases) simp_all

text \<open>For a number that is not negative, \<open>/\<close> and \<open>%\<close> of C++ give its decimal digits.\<close>

lemma digits_of_nonneg:
  assumes "0 \<le> (number::int)"
  shows "(number sdiv 1000) smod 10 = number div 1000 mod 10"
    and "(number sdiv 100) smod 10 = number div 100 mod 10"
    and "(number sdiv 10) smod 10 = number div 10 mod 10"
    and "number smod 10 = number mod 10"
  using assms by (simp_all add: nonneg_sdiv nonneg_smod)

lemma digit_range: "0 \<le> (k::int) mod 10 \<and> k mod 10 \<le> 9"
  using pos_mod_bound [of 10 k] by simp

lemma low_digits:
  "(number::int) div 1000 mod 10 * 1000 + number div 100 mod 10 * 100
     + number div 10 mod 10 * 10 + number mod 10 = number mod 10000"
proof -
  have split: "k mod (b * 10) = k div b mod 10 * b + k mod b" for k b :: int
    using zmod_zmult2_eq [of 10 k b] by (simp add: mult.commute)
  have a: "number mod 10000 = number div 1000 mod 10 * 1000 + number mod 1000"
    using split [of number 1000] by (simp only: arith_simps)
  have b: "number mod 1000 = number div 100 mod 10 * 100 + number mod 100"
    using split [of number 100] by (simp only: arith_simps)
  have c: "number mod 100 = number div 10 mod 10 * 10 + number mod 10"
    using split [of number 10] by (simp only: arith_simps)
  show ?thesis
    by (simp only: a b c add.assoc)
qed

lemma displayNumber_nonneg:
  assumes "0 \<le> number"
  shows "displayNumber number =
           Inr (write_calls [(digitPattern ! nat (number div 1000 mod 10), 0x01),
                             (digitPattern ! nat (number div 100 mod 10), 0x02),
                             (digitPattern ! nat (number div 10 mod 10), 0x04),
                             (digitPattern ! nat (number mod 10), 0x08)])"
  unfolding displayNumber_def Let_def digits_of_nonneg [OF assms]
  by (rule displayNumber_loop_digits) simp_all

text \<open>
  Claim C1. For every number from 0 to 9999, \<open>displayNumber\<close> of \<^verbatim>\<open>src/main.cpp\<close> makes
  exactly four calls of \<open>writeToShiftRegister\<close>, each followed by the dwell, for the digit
  indices 0 to 3 in this order: the digit-select bytes are 0x01, 0x02, 0x04, 0x08 and the
  segment bytes are the entries of \<open>digitPattern\<close> for the thousands, hundreds, tens and
  ones digit of the number. \<open>displayNumber\<close> of \<^verbatim>\<open>src/Task2/main.cpp\<close> with its default
  arguments (no decimal point, position \<open>-1\<close>) does the same.
\<close>

theorem displayNumber_in_range:
  assumes "0 \<le> number" and "number \<le> 9999"
  shows "displayNumber number =
           Inr (write_calls [(digitPattern ! nat (number div 1000 mod 10), 0x01),
                             (digitPattern ! nat (number div 100 mod 10), 0x02),
                             (digitPattern ! nat (number div 10 mod 10), 0x04),
                             (digitPattern ! nat (number mod 10), 0x08)])
       \<and> Task2_displayNumber number False (- 1) = displayNumber number"
  using assms by (simp add: displayNumber_nonneg Task2_default_args)

text \<open>At 1234 the segment bytes are the patterns of the digits 1, 2, 3, 4.\<close>

theorem displayNumber_in_range_witness:
  "(0::int) \<le> 1234 \<and> (1234::int) \<le> 9999
   \<and> displayNumber 1234 =
        Inr (write_calls [(digitPattern ! 1, 0x01), (digitPattern ! 2, 0x02),
                          (digitPattern ! 3, 0x04), (digitPattern ! 4, 0x08)])
   \<and> displayNumber 1234 =
        Inr (write_calls [(0xF9, 0x01), (0xA4, 0x02), (0xB0, 0x04), (0x99, 0x08)])"
  using displayNumber_in_range [of 1234]
  by (simp add: digitPattern_values)

text \<open>
  Claim C4. For every digit \<open>d\<close> from 0 to 9, the encoding without decimal point is the
  table entry \<open>digitPattern[d]\<close>, which is the bit complement of the standard common-cathode
  pattern of \<open>d\<close>; the encoding with decimal point is this entry with bit 7 flipped and no
  other bit changed, and bit 7 is set in the entry and clear in the encoding with decimal
  point.
\<close>

theorem encode_table:
  assumes "0 \<le> d" and "d \<le> 9"
  shows "encode d False = Inr (digitPattern ! nat d)
       \<and> digitPattern ! nat d = NOT (cathodePattern ! nat d)
       \<and> encode d True = Inr (digitPattern ! nat d XOR 0x80)
       \<and> bit (digitPattern ! nat d) 7
       \<and> \<not> bit (digitPattern ! nat d XOR 0x80) 7"
proof -
  from assms have "d = 0 \<or> d = 1 \<or> d = 2 \<or> d = 3 \<or> d = 4
      \<or> d = 5 \<or> d = 6 \<or> d = 7 \<or> d = 8 \<or> d = 9"
    by arith
  then show ?thesis
    by (elim disjE)
      (simp_all add: encode_def array_at_def static_cast_u8_def digitPattern_values
        cathodePattern_def)
qed

theorem encode_table_witness:
  "(0::int) \<le> 8 \<and> (8::int) \<le> 9
   \<and> encode 8 False = Inr 0x80 \<and> encode 8 True = Inr 0x00
   \<and> digitPattern ! 8 = NOT (0x7F :: u8)"
  using encode_table [of 8]
  by (simp add: digitPattern_values cathodePattern_def)

text \<open>
  Claim C6. \<open>displayNumber(245, true, 1)\<close> of \<^verbatim>\<open>src/Task2/main.cpp\<close> makes four calls of
  \<open>writeToShiftRegister\<close> whose segment bytes are the patterns of the digits 0, 2, 4, 5 in
  this order; the byte at index 1 is the table entry with bit 7 cleared, the bytes at the
  indices 0, 2 and 3 are the table entries themselves, with bit 7 set.
\<close>

theorem Task2_displayNumber_245:
  "Task2_displayNumber 245 True 1 =
     Inr (write_calls [(digitPattern ! 0, 0x01), (digitPattern ! 2 AND NOT 0x80, 0x02),
                       (digitPattern ! 4, 0x04), (digitPattern ! 5, 0x08)])
   \<and> Task2_displayNumber 245 True 1 =
     Inr (write_calls [(0xC0, 0x01), (0x24, 0x02), (0x99, 0x04), (0x92, 0x08)])
   \<and> bit (digitPattern ! 0) 7 \<and> \<not> bit (digitPattern ! 2 AND NOT 0x80) 7
   \<and> bit (digitPattern ! 4) 7 \<and> bit (digitPattern ! 5) 7"
  by (simp add: Task2_displayNumber_def Task2_displayNumber_loop_encode encode_def array_at_def
      clear_bit7 static_cast_u8_def digitPattern_values signed_divide_int_def
      signed_modulo_int_def)

text \<open>
  Claim C7, as amended. For every number above 9999, \<open>displayNumber\<close> (of either file,
  without decimal point) makes the four calls with the table entries of the four low-order
  decimal digits of the number: each of the four digits computed by the source is in 0..9,
  every lookup is inside the table, and the four digits read as a number are the number
  modulo 10000. Nothing is said of negative numbers.
\<close>

theorem displayNumber_above_range:
  assumes "9999 < number"
  shows "displayNumber number =
           Inr (write_calls [(digitPattern ! nat (number div 1000 mod 10), 0x01),
                             (digitPattern ! nat (number div 100 mod 10), 0x02),
                             (digitPattern ! nat (number div 10 mod 10), 0x04),
                             (digitPattern ! nat (number mod 10), 0x08)])
       \<and> Task2_displayNumber number False (- 1) = displayNumber number
       \<and> list_all (\<lambda>d. 0 \<le> d \<and> d \<le> 9)
            [(number sdiv 1000) smod 10, (number sdiv 100) smod 10,
             (number sdiv 10) smod 10, number smod 10]
       \<and> (number sdiv 1000) smod 10 * 1000 + (number sdiv 100) smod 10 * 100
            + (number sdiv 10) smod 10 * 10 + number smod 10 = number mod 10000"
proof -
  from assms have nonneg: "0 \<le> number"
    by simp
  have digits: "list_all (\<lambda>d. 0 \<le> d \<and> d \<le> 9)
            [(number sdiv 1000) smod 10, (number sdiv 100) smod 10,
             (number sdiv 10) smod 10, number smod 10]"
    unfolding digits_of_nonneg [OF nonneg] by (simp add: digit_range)
  have low: "(number sdiv 1000) smod 10 * 1000 + (number sdiv 100) smod 10 * 100
            + (number sdiv 10) smod 10 * 10 + number smod 10 = number mod 10000"
    unfolding digits_of_nonneg [OF nonneg] by (rule low_digits)
  from displayNumber_nonneg [OF nonneg] Task2_default_args digits low
  show ?thesis by blast
qed

text \<open>12345 is shown as 2345, and 10000 as 0000.\<close>

theorem displayNumber_above_range_witness:
  "(9999::int) < 12345
   \<and> displayNumber 12345 =
        Inr (write_calls [(digitPattern ! 2, 0x01), (digitPattern ! 3, 0x02),
                          (digitPattern ! 4, 0x04), (digitPattern ! 5, 0x08)])
   \<and> (9999::int) < 10000
   \<and> displayNumber 10000 =
        Inr (write_calls [(digitPattern ! 0, 0x01), (digitPattern ! 0, 0x02),
                          (digitPattern ! 0, 0x04), (digitPattern ! 0, 0x08)])"
  using displayNumber_above_range [of 12345] displayNumber_above_range [of 10000]
  by simp

text \<open>
  Claim C7 as stated fails below 0: \<open>%\<close> of C++ gives the digits \<open>-2, -3, -4, -5\<close> for
  \<open>-12345\<close>, and the lookup of \<open>digitPattern[-2]\<close> is outside the table.
\<close>

theorem displayNumber_negative_counterexample:
  "((- 12345) sdiv 1000) smod 10 = (- 2 :: int)
   \<and> displayNumber (- 12345) = Inl OutOfBounds
   \<and> Task2_displayNumber (- 12345) False (- 1) = Inl OutOfBounds"
  by (simp add: Task2_default_args displayNumber_def displayNumber_loop.simps array_at_def
      signed_divide_int_def signed_modulo_int_def)

text \<open>
  Claim C8, as amended. The source validates no digit: there is neither a rejection nor a
  clamp. The lookup is inside the 10-entry table exactly for the digits 0 to 9; for a digit
  below 0 or above 9 it reads outside the table, and so does either \<open>displayNumber\<close> loop as
  soon as one of its four digits is such a digit.
\<close>

theorem lookup_bounds:
  "(encode d decimalOn = Inl OutOfBounds) = (d < 0 \<or> 9 < d)
   \<and> (displayNumber_loop [d0, d1, d2, d3] 0 = Inl OutOfBounds) =
       (d0 < 0 \<or> 9 < d0 \<or> d1 < 0 \<or> 9 < d1 \<or> d2 < 0 \<or> 9 < d2 \<or> d3 < 0 \<or> 9 < d3)
   \<and> (Task2_displayNumber_loop [d0, d1, d2, d3] showDecimal decimalPos 0 = Inl OutOfBounds) =
       (d0 < 0 \<or> 9 < d0 \<or> d1 < 0 \<or> 9 < d1 \<or> d2 < 0 \<or> 9 < d2 \<or> d3 < 0 \<or> 9 < d3)"
  by (simp only: encode_bounds displayNumber_loop_bounds Task2_displayNumber_loop_bounds
      simp_thms)

theorem lookup_bounds_witness:
  "encode 10 True = Inl OutOfBounds
   \<and> encode 9 True \<noteq> Inl OutOfBounds
   \<and> displayNumber_loop [0, 0, 10, 0] 0 = Inl OutOfBounds
   \<and> Task2_displayNumber_loop [0, 2, 4, 5] True 1 0 \<noteq> Inl OutOfBounds"
  using lookup_bounds [of 10 True 0 0 10 0 True 1] lookup_bounds [of 9 True 0 2 4 5 True 1]
  by simp

text \<open>
  Claim C8 as stated fails at the digit \<open>-1\<close>, the last digit the source computes for the
  number \<open>-1\<close>: nothing rejects or clamps it, and the lookup reads \<open>digitPattern[-1]\<close>.
\<close>

theorem encode_negative_counterexample:
  "(- 1) smod 10 = (- 1 :: int)
   \<and> encode (- 1) False = Inl OutOfBounds
   \<and> array_at digitPattern (- 1) = Inl OutOfBounds
   \<and> Task2_displayNumber (- 1) True 1 = Inl OutOfBounds"
  by (simp add: encode_def Task2_displayNumber_def Task2_displayNumber_loop.simps array_at_def
      signed_divide_int_def signed_modulo_int_def digitPattern_values digitPos_def)

end
